theory Spec2Isabelle
  imports Main
begin

section \<open>Go strings, runes and the Unicode tables\<close>

text \<open>
  A Go string is modelled as the sequence of runes (Unicode code points) that a
  \<^verbatim>\<open>range\<close> loop over it yields; strings that are not valid UTF-8 are outside the
  model.  Literals of the source are written with \<open>lit\<close>.
\<close>

type_synonym rune = nat
type_synonym gostring = "rune list"

definition lit :: "string \<Rightarrow> gostring" where
  "lit s = map of_char s"

text \<open>
  \<^verbatim>\<open>unicode.IsLetter\<close>, \<^verbatim>\<open>unicode.IsDigit\<close> and \<^verbatim>\<open>unicode.ToLower\<close> belong to the Go
  standard library.  On ASCII they are written out; beyond ASCII the Unicode tables are
  a parameter \<open>U\<close> of every function that consults them, so that each theorem holds for
  whatever the tables say there.
\<close>

record unicode_tables =
  letterX :: "rune \<Rightarrow> bool"
  digitX :: "rune \<Rightarrow> bool"
  lowerX :: "rune \<Rightarrow> rune"

definition IsLetter :: "unicode_tables \<Rightarrow> rune \<Rightarrow> bool" where
  "IsLetter U r =
     (if r < 128 then (65 \<le> r \<and> r \<le> 90) \<or> (97 \<le> r \<and> r \<le> 122) else letterX U r)"

definition IsDigit :: "unicode_tables \<Rightarrow> rune \<Rightarrow> bool" where
  "IsDigit U r = (if r < 128 then 48 \<le> r \<and> r \<le> 57 else digitX U r)"

definition unicode_ToLower :: "unicode_tables \<Rightarrow> rune \<Rightarrow> rune" where
  "unicode_ToLower U r =
     (if r < 128 then (if 65 \<le> r \<and> r \<le> 90 then r + 32 else r) else lowerX U r)"

definition strings_ToLower :: "unicode_tables \<Rightarrow> gostring \<Rightarrow> gostring" where
  "strings_ToLower U s = map (unicode_ToLower U) s"

text \<open>Tables with nothing beyond ASCII, for evaluating the ASCII examples.\<close>

definition ascii_tables :: unicode_tables where
  "ascii_tables = \<lparr>letterX = (\<lambda>r. False), digitX = (\<lambda>r. False), lowerX = (\<lambda>r. r)\<rparr>"

section \<open>Errors\<close>

text \<open>
  The package's sentinel errors are constructors; \<open>ErrorsNew\<close> is an error made by
  \<^verbatim>\<open>errors.New\<close> anywhere else (never identical to a sentinel); \<open>Errorf_w e s\<close> is
  \<^verbatim>\<open>fmt.Errorf("%w...", e, ...)\<close>: it wraps exactly \<open>e\<close> and its text is the text of
  \<open>e\<close> followed by \<open>s\<close>.
\<close>

datatype error =
    ErrInvalidOptionValue
  | ErrUnchecked
  | ErrMissing
  | ErrInvalid
  | ErrType
  | ErrInvalidMethod
  | ErrorsNew gostring
  | Errorf_w error gostring

fun Error :: "error \<Rightarrow> gostring" where
  "Error ErrInvalidOptionValue = lit ''invalid option value''"
| "Error ErrUnchecked = lit ''authorization metadata is unchecked''"
| "Error ErrMissing = lit ''request has no authorization credentials''"
| "Error ErrInvalid = lit ''authorization credentials are invalid''"
| "Error ErrType = lit ''authorization has the wrong type''"
| "Error ErrInvalidMethod = lit ''invalid authorization method''"
| "Error (ErrorsNew m) = m"
| "Error (Errorf_w e s) = Error e @ s"

text \<open>\<^verbatim>\<open>errors.Is\<close>: walk the chain of wrapped errors, comparing each link with the target.\<close>

fun errors_Is :: "error \<Rightarrow> error \<Rightarrow> bool" where
  "errors_Is (Errorf_w e s) target = (Errorf_w e s = target \<or> errors_Is e target)"
| "errors_Is e target = (e = target)"

section \<open>Scheme-name validation\<close>

text \<open>The loop of \<^verbatim>\<open>validateMethod\<close> over the runes of the name.\<close>

fun validateRunes :: "unicode_tables \<Rightarrow> gostring \<Rightarrow> error option" where
  "validateRunes U [] = None"
| "validateRunes U (r # rs) =
     (if \<not> IsLetter U r \<and> \<not> IsDigit U r
      then Some (Errorf_w ErrInvalidMethod (lit '': must only contains alphanumeric characters''))
      else validateRunes U rs)"

definition validateMethod :: "unicode_tables \<Rightarrow> gostring \<Rightarrow> error option" where
  "validateMethod U method =
     (if method = [] then Some (Errorf_w ErrInvalidMethod (lit '': is empty''))
      else if 32 \<in> set method
        then Some (Errorf_w ErrInvalidMethod (lit '': must not contains whitespace''))
      else if method \<noteq> strings_ToLower U method
        then Some (Errorf_w ErrInvalidMethod (lit '': must be lowercase''))
      else validateRunes U method)"

section \<open>The header pattern\<close>

text \<open>
  \<^verbatim>\<open>authorizationMetaRegex\<close> is \<^verbatim>\<open>(?m)^([^\s]+)\s+(.*)\<close>.  In Go's syntax \<^verbatim>\<open>\s\<close> is
  the class of tab, newline, form feed, carriage return and space; \<^verbatim>\<open>.\<close> is any rune
  but newline; with the flag \<^verbatim>\<open>m\<close>, \<^verbatim>\<open>^\<close> holds at the start of the text and after
  every newline.
\<close>

definition is_s :: "rune \<Rightarrow> bool" where
  "is_s r = (r = 9 \<or> r = 10 \<or> r = 12 \<or> r = 13 \<or> r = 32)"

text \<open>
  The match of \<^verbatim>\<open>([^\s]+)\s+(.*)\<close> starting at the head of \<open>s\<close>.  All three repetitions
  are greedy, and none can give a rune back: after the longest run of non-blank runes
  comes a blank or the end, after the longest run of blanks comes a non-blank or the end,
  and \<^verbatim>\<open>(.*)\<close> matches whatever is left of the line.  The result is the list of
  submatches \<^verbatim>\<open>[whole, group 1, group 2]\<close>.
\<close>

definition match_here :: "gostring \<Rightarrow> gostring list option" where
  "match_here s =
     (let tok = takeWhile (\<lambda>r. \<not> is_s r) s;
          rest = dropWhile (\<lambda>r. \<not> is_s r) s;
          sep = takeWhile is_s rest;
          tail = takeWhile (\<lambda>r. r \<noteq> 10) (dropWhile is_s rest)
      in if tok = [] \<or> sep = [] then None else Some [tok @ sep @ tail, tok, tail])"

text \<open>
  The unanchored search of \<^verbatim>\<open>FindStringSubmatch\<close>: the start positions are tried from
  left to right, and \<^verbatim>\<open>^\<close> lets a match start only at a beginning of line; \<open>bol\<close> says
  whether the current position is one.
\<close>

fun search :: "bool \<Rightarrow> gostring \<Rightarrow> gostring list option" where
  "search bol [] = None"
| "search bol (r # rs) =
     (if bol then (case match_here (r # rs) of
                     Some res \<Rightarrow> Some res
                   | None \<Rightarrow> search (r = 10) rs)
      else search (r = 10) rs)"

definition FindStringSubmatch :: "gostring \<Rightarrow> gostring list option" where
  "FindStringSubmatch s = search True s"

section \<open>Go types and values\<close>

text \<open>
  The fragment of Go's types that the typed retrieval is exercised on: predeclared
  types, defined (named) types, pointers, slices, channels with a direction, and the
  empty interface.  Type identity is equality of these terms.
\<close>

datatype chandir = RecvDir | SendDir | BothDir

datatype gotype =
    Predeclared string
  | Defined string gotype
  | PtrTo gotype
  | SliceOf gotype
  | ChanOf chandir gotype
  | EmptyInterface

datatype kind = KInvalid | KBasic string | KPtr | KSlice | KChan | KInterface

fun underlying :: "gotype \<Rightarrow> gotype" where
  "underlying (Defined n t) = underlying t"
| "underlying t = t"

fun hasName :: "gotype \<Rightarrow> bool" where
  "hasName (Predeclared n) = True"
| "hasName (Defined n t) = True"
| "hasName t = False"

fun Kind :: "gotype \<Rightarrow> kind" where
  "Kind (Predeclared n) = KBasic n"
| "Kind (Defined n t) = Kind t"
| "Kind (PtrTo t) = KPtr"
| "Kind (SliceOf t) = KSlice"
| "Kind (ChanOf d t) = KChan"
| "Kind EmptyInterface = KInterface"

fun type_String :: "gotype \<Rightarrow> gostring" where
  "type_String (Predeclared n) = lit n"
| "type_String (Defined n t) = lit n"
| "type_String (PtrTo t) = lit ''*'' @ type_String t"
| "type_String (SliceOf t) = lit ''[]'' @ type_String t"
| "type_String (ChanOf RecvDir t) = lit ''<-chan '' @ type_String t"
| "type_String (ChanOf SendDir t) = lit ''chan<- '' @ type_String t"
| "type_String (ChanOf BothDir t) = lit ''chan '' @ type_String t"
| "type_String EmptyInterface = lit ''interface {}''"

text \<open>
  Assignability as package \<^verbatim>\<open>reflect\<close> decides it.  \<open>directlyAssignable T V\<close>: a value
  of type \<open>V\<close> can be stored in a \<open>T\<close> without conversion: the types are identical, or
  not both named and of one kind, with identical underlying types or with \<open>V\<close> a
  bidirectional channel and \<open>T\<close> a channel of the same element type.
\<close>

fun specialChannelAssignability :: "gotype \<Rightarrow> gotype \<Rightarrow> bool" where
  "specialChannelAssignability T V =
     (case (underlying T, underlying V) of
        (ChanOf dT eT, ChanOf dV eV) \<Rightarrow>
           dV = BothDir \<and> (\<not> hasName T \<or> \<not> hasName V) \<and> eT = eV
      | _ \<Rightarrow> False)"

definition directlyAssignable :: "gotype \<Rightarrow> gotype \<Rightarrow> bool" where
  "directlyAssignable T V =
     (if T = V then True
      else if (hasName T \<and> hasName V) \<or> Kind T \<noteq> Kind V then False
      else if Kind T = KChan \<and> specialChannelAssignability T V then True
      else underlying T = underlying V)"

text \<open>The only interface type of the fragment has no method: every type implements it.\<close>

definition implements :: "gotype \<Rightarrow> gotype \<Rightarrow> bool" where
  "implements T V = (Kind T = KInterface)"

text \<open>\<open>AssignableTo t u\<close> is \<^verbatim>\<open>t.AssignableTo(u)\<close>: a value of type \<open>t\<close> is assignable to \<open>u\<close>.\<close>

definition AssignableTo :: "gotype \<Rightarrow> gotype \<Rightarrow> bool" where
  "AssignableTo t u = (directlyAssignable u t \<or> implements u t)"

text \<open>
  A value of type \<^verbatim>\<open>any\<close>: nil, an error value, or a value of a dynamic type that
  does not implement \<^verbatim>\<open>error\<close>, with its content.
\<close>

datatype goval = VNil | VErr error | VData gotype nat

section \<open>Contexts and metadata\<close>

type_synonym MD = "gostring \<rightharpoonup> gostring list"

datatype ctxkey = contextValueKey | foreignKey nat

text \<open>
  A context: the value found under each key (nil when there is none), and the incoming
  and outgoing gRPC metadata, if any was attached.  Package \<^verbatim>\<open>metadata\<close> is modelled
  as storing and returning the map it is given.
\<close>

record Context =
  Value :: "ctxkey \<Rightarrow> goval"
  incomingMD :: "MD option"
  outgoingMD :: "MD option"

definition WithValue :: "Context \<Rightarrow> ctxkey \<Rightarrow> goval \<Rightarrow> Context" where
  "WithValue ctx k v = ctx\<lparr>Value := (Value ctx)(k := v)\<rparr>"

definition MetadataName :: gostring where
  "MetadataName = lit ''authorization''"

definition FromIncomingContext :: "Context \<Rightarrow> MD option" where
  "FromIncomingContext ctx = incomingMD ctx"

definition FromOutgoingContext :: "Context \<Rightarrow> MD option" where
  "FromOutgoingContext ctx = outgoingMD ctx"

definition NewOutgoingContext :: "Context \<Rightarrow> MD \<Rightarrow> Context" where
  "NewOutgoingContext ctx md = ctx\<lparr>outgoingMD := Some md\<rparr>"

definition NewIncomingContext :: "Context \<Rightarrow> MD \<Rightarrow> Context" where
  "NewIncomingContext ctx md = ctx\<lparr>incomingMD := Some md\<rparr>"

text \<open>\<^verbatim>\<open>MD.Set\<close> lowercases the key and replaces whatever values it had.\<close>

definition MD_Set :: "unicode_tables \<Rightarrow> MD \<Rightarrow> gostring \<Rightarrow> gostring \<Rightarrow> MD" where
  "MD_Set U md k v = md(strings_ToLower U k \<mapsto> [v])"

text \<open>The empty context (\<^verbatim>\<open>context.TODO()\<close>).\<close>

definition TODO :: Context where
  "TODO = \<lparr>Value = (\<lambda>k. VNil), incomingMD = None, outgoingMD = None\<rparr>"

section \<open>The authorization instance\<close>

type_synonym CredentialValidator = "Context \<Rightarrow> gostring \<Rightarrow> goval \<times> error option"

text \<open>The registry; a registered \<open>None\<close> is a nil function value.\<close>

record Authorization =
  methods :: "gostring \<rightharpoonup> CredentialValidator option"

type_synonym Options = "Authorization \<Rightarrow> error option \<times> Authorization"

text \<open>An option updates the instance in place and returns its error, if any.\<close>

definition WithMethodFunction ::
  "unicode_tables \<Rightarrow> gostring \<Rightarrow> CredentialValidator option \<Rightarrow> Options" where
  "WithMethodFunction U method fn a =
     (if fn = None then (Some (ErrorsNew (lit ''cannot use a nil function'')), a)
      else case validateMethod U method of
             Some err \<Rightarrow> (Some err, a)
           | None \<Rightarrow> (None, a\<lparr>methods := (methods a)(method \<mapsto> fn)\<rparr>))"

fun apply_opts :: "Options list \<Rightarrow> Authorization \<Rightarrow> error + Authorization" where
  "apply_opts [] a = Inr a"
| "apply_opts (opt # opts) a =
     (case opt a of
        (Some err, a') \<Rightarrow> Inl (Errorf_w ErrInvalidOptionValue (lit '' : '' @ Error err))
      | (None, a') \<Rightarrow> apply_opts opts a')"

definition New :: "Options list \<Rightarrow> error + Authorization" where
  "New opts = apply_opts opts \<lparr>methods = Map.empty\<rparr>"

section \<open>Outgoing encoding\<close>

definition AppendToOutgoingContext ::
  "unicode_tables \<Rightarrow> Context \<Rightarrow> gostring \<Rightarrow> gostring \<Rightarrow> error + Context" where
  "AppendToOutgoingContext U ctx method credential =
     (case validateMethod U method of
        Some err \<Rightarrow> Inl err
      | None \<Rightarrow>
          (let val = strings_ToLower U method @ lit '' '' @ credential;
               md = (case FromOutgoingContext ctx of None \<Rightarrow> Map.empty | Some m \<Rightarrow> m)
           in Inr (NewOutgoingContext ctx (MD_Set U md MetadataName val))))"

section \<open>The validation engine\<close>

definition parseMeta :: "unicode_tables \<Rightarrow> Authorization \<Rightarrow> Context \<Rightarrow> goval" where
  "parseMeta U a ctx =
     (case FromIncomingContext ctx of
        None \<Rightarrow> VErr ErrMissing
      | Some md \<Rightarrow>
         (case md MetadataName of
            None \<Rightarrow> VErr ErrMissing
          | Some [] \<Rightarrow> VErr ErrMissing
          | Some (h # hs) \<Rightarrow>
             (case FindStringSubmatch h of
                None \<Rightarrow>
                  VErr (Errorf_w ErrInvalid (lit '': invalid format for authorization metadata''))
              | Some res \<Rightarrow>
                 (case validateMethod U (res ! 1) of
                    Some err \<Rightarrow> VErr err
                  | None \<Rightarrow>
                     (case methods a (res ! 1) of
                        None \<Rightarrow>
                          VErr (Errorf_w ErrInvalid
                            (lit '': authorization method '' @ [34] @ res ! 1 @ [34]
                               @ lit '' is not supported''))
                      | Some None \<Rightarrow>
                          VErr (Errorf_w ErrInvalid
                            (lit '': authorization method '' @ [34] @ res ! 1 @ [34]
                               @ lit '' is not supported''))
                      | Some (Some fn) \<Rightarrow>
                         (case fn ctx (res ! 2) of
                            (v, Some err) \<Rightarrow> VErr err
                          | (v, None) \<Rightarrow> v))))))"

section \<open>Interceptors\<close>

type_synonym ('req, 'resp) UnaryHandler = "Context \<Rightarrow> 'req \<Rightarrow> 'resp \<times> error option"

definition UnaryInterceptor ::
  "unicode_tables \<Rightarrow> Authorization \<Rightarrow> Context \<Rightarrow> 'req \<Rightarrow> 'info
     \<Rightarrow> ('req, 'resp) UnaryHandler \<Rightarrow> 'resp \<times> error option" where
  "UnaryInterceptor U a ctx req info handler =
     handler (WithValue ctx contextValueKey (parseMeta U a ctx)) req"

text \<open>
  A server stream is the transport's stream, possibly inside wrappers
  (\<^verbatim>\<open>utils.ServerStream\<close>) that each replace what \<^verbatim>\<open>Context()\<close> returns.
\<close>

datatype 'ss ServerStream =
    Transport 'ss Context
  | Wrap "'ss ServerStream" Context

fun stream_Context :: "'ss ServerStream \<Rightarrow> Context" where
  "stream_Context (Transport s c) = c"
| "stream_Context (Wrap s c) = c"

type_synonym ('srv, 'ss) StreamHandler = "'srv \<Rightarrow> 'ss ServerStream \<Rightarrow> error option"

definition StreamInterceptor ::
  "unicode_tables \<Rightarrow> Authorization \<Rightarrow> 'srv \<Rightarrow> 'ss ServerStream \<Rightarrow> 'info
     \<Rightarrow> ('srv, 'ss) StreamHandler \<Rightarrow> error option" where
  "StreamInterceptor U a srv stream info handler =
     (let ns = Wrap stream
                 (WithValue (stream_Context stream) contextValueKey
                    (parseMeta U a (stream_Context stream)))
      in handler srv ns)"

section \<open>Typed retrieval\<close>

text \<open>
  The destination argument: a nil interface, or a value of some dynamic type; when that
  type is a pointer type the second component is the variable it points to (\<open>None\<close> for
  a nil pointer).  The variables live in a store.  A call either returns (an error or
  nil, and the store) or panics.
\<close>

datatype dest = DestNil | Dest gotype "nat option"

type_synonym store = "nat \<Rightarrow> goval"

datatype 'a result = Returns 'a | Panics

fun dest_Kind :: "dest \<Rightarrow> kind" where
  "dest_Kind DestNil = KInvalid"
| "dest_Kind (Dest t p) = Kind t"

fun elem_type :: "gotype \<Rightarrow> gotype" where
  "elem_type t = (case underlying t of PtrTo e \<Rightarrow> e | _ \<Rightarrow> t)"

text \<open>
  \<^verbatim>\<open>reflect.Value.Set\<close> on the variable \<open>p\<close> of type \<open>T\<close>: it panics unless the value is
  assignable to \<open>T\<close>; a variable of a non-interface type holds the value at type \<open>T\<close>.
\<close>

fun reflect_Set :: "gotype \<Rightarrow> nat \<Rightarrow> gotype \<Rightarrow> nat \<Rightarrow> store \<Rightarrow> store result" where
  "reflect_Set T p from_t x st =
     (if AssignableTo from_t T
      then Returns (st(p := VData (if Kind T = KInterface then from_t else T) x))
      else Panics)"

definition GetFromContext ::
  "Context \<Rightarrow> dest \<Rightarrow> store \<Rightarrow> (error option \<times> store) result" where
  "GetFromContext ctx d st =
     (if dest_Kind d \<noteq> KPtr
      then Returns (Some (Errorf_w ErrType (lit '': dest must be a pointer'')), st)
      else case Value ctx contextValueKey of
        VNil \<Rightarrow> Returns (Some ErrUnchecked, st)
      | VErr err \<Rightarrow>
          (if errors_Is err ErrMissing \<or> errors_Is err ErrInvalid
           then Returns (Some err, st)
           else Returns (Some (Errorf_w ErrInvalid (lit '': '' @ Error err)), st))
      | VData from_t x \<Rightarrow>
          (case d of
             Dest t (Some p) \<Rightarrow>
               (if \<not> AssignableTo (elem_type t) from_t
                then Returns (Some (Errorf_w ErrType
                        (lit '': expecting a '' @ type_String (elem_type t)
                           @ lit '' but got value is a '' @ type_String from_t)), st)
                else case reflect_Set (elem_type t) p from_t x st of
                       Returns st' \<Rightarrow> Returns (None, st')
                     | Panics \<Rightarrow> Panics)
           | _ \<Rightarrow> Panics))"

section \<open>The codec seen from outside\<close>

text \<open>
  The spec's \<open>encode\<close> is the header value that \<^verbatim>\<open>AppendToOutgoingContext\<close> computes, and
  its \<open>decode\<close> is the part of \<^verbatim>\<open>parseMeta\<close> between reading the header value and looking
  the scheme up; both are cut out of the functions above, and shown below to be exactly
  what those functions do.
\<close>

definition malformed :: error where
  "malformed = Errorf_w ErrInvalid (lit '': invalid format for authorization metadata'')"

definition unsupported :: "gostring \<Rightarrow> error" where
  "unsupported m =
     Errorf_w ErrInvalid
       (lit '': authorization method '' @ [34] @ m @ [34] @ lit '' is not supported'')"

definition encode :: "unicode_tables \<Rightarrow> gostring \<Rightarrow> gostring \<Rightarrow> error + gostring" where
  "encode U method credential =
     (case validateMethod U method of
        Some err \<Rightarrow> Inl err
      | None \<Rightarrow> Inr (strings_ToLower U method @ lit '' '' @ credential))"

definition decode :: "unicode_tables \<Rightarrow> gostring \<Rightarrow> error + gostring \<times> gostring" where
  "decode U h =
     (case FindStringSubmatch h of
        None \<Rightarrow> Inl malformed
      | Some res \<Rightarrow>
         (case validateMethod U (res ! 1) of
            Some err \<Rightarrow> Inl err
          | None \<Rightarrow> Inr (res ! 1, res ! 2)))"

text \<open>What the engine does with a decoded header: look the scheme up and run its validator.\<close>

definition dispatch ::
  "Authorization \<Rightarrow> Context \<Rightarrow> error + gostring \<times> gostring \<Rightarrow> goval" where
  "dispatch a ctx d =
     (case d of
        Inl err \<Rightarrow> VErr err
      | Inr (m, c) \<Rightarrow>
         (case methods a m of
            None \<Rightarrow> VErr (unsupported m)
          | Some None \<Rightarrow> VErr (unsupported m)
          | Some (Some fn) \<Rightarrow>
             (case fn ctx c of (v, Some err) \<Rightarrow> VErr err | (v, None) \<Rightarrow> v)))"

text \<open>The package's sentinels, and those that an error matches.\<close>

definition sentinels :: "error list" where
  "sentinels =
     [ErrInvalidOptionValue, ErrUnchecked, ErrMissing, ErrInvalid, ErrType, ErrInvalidMethod]"

definition kinds :: "error \<Rightarrow> error list" where
  "kinds e = filter (errors_Is e) sentinels"

section \<open>The scheme-name rule and the header pattern, as the specification words them\<close>

text \<open>
  The rule: non-empty, no (ASCII) whitespace, lowercase, letters and digits only.
\<close>

definition whitespace :: "rune \<Rightarrow> bool" where
  "whitespace r = (r = 9 \<or> r = 10 \<or> r = 11 \<or> r = 12 \<or> r = 13 \<or> r = 32)"

definition scheme_name_rule :: "unicode_tables \<Rightarrow> gostring \<Rightarrow> bool" where
  "scheme_name_rule U s =
     (s \<noteq> [] \<and> list_all (\<lambda>r. \<not> whitespace r) s \<and> strings_ToLower U s = s
        \<and> list_all (\<lambda>r. IsLetter U r \<or> IsDigit U r) s)"

text \<open>
  The text matches \<^verbatim>\<open>^(\S+)\s+(.*)\<close> with \<^verbatim>\<open>^\<close> anchored at the start of the text: it
  starts with a non-blank rune, and a blank follows the run of non-blank runes.
\<close>

definition anchored_match :: "gostring \<Rightarrow> bool" where
  "anchored_match s =
     (case s of
        [] \<Rightarrow> False
      | r # rs \<Rightarrow> \<not> is_s r \<and> dropWhile (\<lambda>r. \<not> is_s r) rs \<noteq> [])"

text \<open>The lines of a text: the text itself, and what follows each newline.\<close>

fun line_starts :: "gostring \<Rightarrow> gostring list" where
  "line_starts [] = [[]]"
| "line_starts (r # rs) =
     (r # rs) # (if r = 10 then line_starts rs else tl (line_starts rs))"

definition multiline_match :: "gostring \<Rightarrow> bool" where
  "multiline_match s = list_ex anchored_match (line_starts s)"

text \<open>
  What a handler obtains when it calls \<^verbatim>\<open>GetFromContext\<close> on the context that the unary
  interceptor passes to it.
\<close>

definition handler_get ::
  "unicode_tables \<Rightarrow> Authorization \<Rightarrow> Context \<Rightarrow> dest \<Rightarrow> store
     \<Rightarrow> (error option \<times> store) result" where
  "handler_get U a ctx d st =
     fst (UnaryInterceptor U a ctx () () (\<lambda>ctx' req. (GetFromContext ctx' d st, None)))"

section \<open>Fixtures of the package's tests\<close>

text \<open>
  \<^verbatim>\<open>fooFunc\<close> of \<^verbatim>\<open>TestAuthorizationInterceptors\<close> (here \<open>fooFunc\<close>) and \<^verbatim>\<open>fooFunc\<close> of
  \<^verbatim>\<open>TestWithMethodFunction\<close>, which returns nil and no error (here \<open>nilFunc\<close>), and an
  instance that registers them under \<^verbatim>\<open>foo\<close> and \<^verbatim>\<open>nil\<close>.  The string type of Go is
  \<open>Predeclared ''string''\<close>; the content of a value is not looked at, and is \<open>0\<close> here.
\<close>

definition fooFunc :: CredentialValidator where
  "fooFunc ctx credential =
     (if credential = lit ''bar'' then (VData (Predeclared ''string'') 0, None)
      else (VNil, Some (ErrorsNew (lit ''boo''))))"

definition nilFunc :: CredentialValidator where
  "nilFunc ctx credential = (VNil, None)"

definition test_auth :: Authorization where
  "test_auth = \<lparr>methods = [lit ''foo'' \<mapsto> Some fooFunc, lit ''nil'' \<mapsto> Some nilFunc]\<rparr>"

definition header_ctx :: "gostring list \<Rightarrow> Context" where
  "header_ctx hs = NewIncomingContext TODO [MetadataName \<mapsto> hs]"


section \<open>Facts about the scheme-name check\<close>

lemma validateRunes_None_iff:
  "validateRunes U s = None \<longleftrightarrow> (\<forall>r\<in>set s. IsLetter U r \<or> IsDigit U r)"
  by (induction s) auto

lemma validateRunes_Some:
  "validateRunes U s = Some e \<Longrightarrow>
     e = Errorf_w ErrInvalidMethod (lit '': must only contains alphanumeric characters'')"
  by (induction s) (auto split: if_splits)

lemma validateMethod_None_iff:
  "validateMethod U s = None \<longleftrightarrow>
     s \<noteq> [] \<and> 32 \<notin> set s \<and> strings_ToLower U s = s \<and> (\<forall>r\<in>set s. IsLetter U r \<or> IsDigit U r)"
  by (auto simp: validateMethod_def validateRunes_None_iff)

lemma validateMethod_Some_wraps:
  "validateMethod U s = Some e \<Longrightarrow> \<exists>t. e = Errorf_w ErrInvalidMethod t"
  by (auto simp: validateMethod_def split: if_splits dest: validateRunes_Some)

lemma validateMethod_Some_kinds:
  "validateMethod U s = Some e \<Longrightarrow> kinds e = [ErrInvalidMethod]"
  by (auto simp: kinds_def sentinels_def dest!: validateMethod_Some_wraps)

lemma whitespace_not_alnum: "whitespace r \<Longrightarrow> \<not> IsLetter U r \<and> \<not> IsDigit U r"
  by (auto simp: whitespace_def IsLetter_def IsDigit_def)

lemma is_s_whitespace: "is_s r \<Longrightarrow> whitespace r"
  by (auto simp: is_s_def whitespace_def)

lemma validateMethod_rule: "validateMethod U s = None \<longleftrightarrow> scheme_name_rule U s"
  unfolding validateMethod_None_iff scheme_name_rule_def list_all_iff
  using whitespace_not_alnum[of _ U] by (auto simp: whitespace_def)

lemma valid_no_blank: "validateMethod U s = None \<Longrightarrow> r \<in> set s \<Longrightarrow> \<not> is_s r"
  unfolding validateMethod_None_iff using whitespace_not_alnum is_s_whitespace by blast

lemma match_here_token:
  assumes "s \<noteq> []" "\<forall>r\<in>set s. \<not> is_s r" "is_s b"
  shows "match_here (s @ b # c) =
           Some [s @ (b # takeWhile is_s c) @ takeWhile (\<lambda>r. r \<noteq> 10) (dropWhile is_s c), s,
                 takeWhile (\<lambda>r. r \<noteq> 10) (dropWhile is_s c)]"
proof -
  have t: "takeWhile (\<lambda>r. \<not> is_s r) (s @ b # c) = s"
    using assms by (simp add: takeWhile_append2)
  have d: "dropWhile (\<lambda>r. \<not> is_s r) (s @ b # c) = b # c"
    using assms by (simp add: dropWhile_append2)
  show ?thesis
    unfolding match_here_def t d using assms by (simp add: Let_def)
qed

lemma search_match: "match_here s = Some res \<Longrightarrow> search True s = Some res"
  by (cases s) (auto simp: match_here_def)

lemma tail_eq_iff:
  "takeWhile (\<lambda>r. r \<noteq> 10) (dropWhile is_s c) = c \<longleftrightarrow> (c = [] \<or> \<not> is_s (hd c)) \<and> (10::nat) \<notin> set c"
proof
  assume eq: "takeWhile (\<lambda>r. r \<noteq> 10) (dropWhile is_s c) = c"
  have "length (takeWhile (\<lambda>r. r \<noteq> 10) (dropWhile is_s c)) \<le> length (dropWhile is_s c)"
    by (rule length_takeWhile_le)
  with eq have "length c \<le> length (dropWhile is_s c)" by simp
  moreover have "length (dropWhile is_s c) \<le> length c" by (rule length_dropWhile_le)
  ultimately have "length (dropWhile is_s c) = length c" by simp
  then have d: "dropWhile is_s c = c"
    by (metis append_eq_conv_conj drop_all le_refl takeWhile_dropWhile_id append_self_conv2 length_append add_cancel_left_left length_0_conv)
  with eq have "takeWhile (\<lambda>r. r \<noteq> 10) c = c" by simp
  then have "10 \<notin> set c" by (metis (mono_tags, lifting) set_takeWhileD)
  moreover have "c = [] \<or> \<not> is_s (hd c)"
  proof (cases c)
    case Nil then show ?thesis by simp
  next
    case (Cons a list)
    have "length (dropWhile is_s list) \<le> length list" by (rule length_dropWhile_le)
    with d Cons show ?thesis by (auto split: if_splits)
  qed
  ultimately show "(c = [] \<or> \<not> is_s (hd c)) \<and> 10 \<notin> set c" by simp
next
  assume a: "(c = [] \<or> \<not> is_s (hd c)) \<and> 10 \<notin> set c"
  then have "dropWhile is_s c = c" by (cases c) auto
  moreover from a have "takeWhile (\<lambda>r. r \<noteq> 10) c = c" by (auto simp: takeWhile_eq_all_conv)
  ultimately show "takeWhile (\<lambda>r. r \<noteq> 10) (dropWhile is_s c) = c" by simp
qed

section \<open>The match, read off the regular expression\<close>

text \<open>
  \<open>match_here\<close> returns the leftmost-first match of \<^verbatim>\<open>([^\s]+)\s+(.*)\<close> at the head of the
  text: the text splits into a token of non-blanks, a separator of blanks that is
  followed by no further blank, and the rest of the line up to the next newline or the
  end; the two groups are the token and that rest of the line.
\<close>

lemma takeWhile_unique:
  assumes "s = a @ b" "\<forall>x\<in>set a. P x" "b = [] \<or> \<not> P (hd b)"
  shows "takeWhile P s = a \<and> dropWhile P s = b"
proof (cases b)
  case Nil
  with assms show ?thesis by simp
next
  case (Cons y ys)
  with assms have "\<not> P y" by simp
  with assms Cons show ?thesis by (simp add: takeWhile_append2 dropWhile_append2)
qed

lemma match_here_Some_iff:
  "match_here s = Some res \<longleftrightarrow>
     (\<exists>tok sep tail rest.
         s = tok @ sep @ tail @ rest \<and> res = [tok @ sep @ tail, tok, tail] \<and>
         tok \<noteq> [] \<and> (\<forall>r\<in>set tok. \<not> is_s r) \<and>
         sep \<noteq> [] \<and> (\<forall>r\<in>set sep. is_s r) \<and> (tail @ rest = [] \<or> \<not> is_s (hd (tail @ rest))) \<and>
         (\<forall>r\<in>set tail. r \<noteq> 10) \<and> (rest = [] \<or> hd rest = 10))"
  (is "?L \<longleftrightarrow> ?R")
proof
  assume l: ?L
  let ?tok = "takeWhile (\<lambda>r. \<not> is_s r) s"
  let ?d = "dropWhile (\<lambda>r. \<not> is_s r) s"
  let ?sep = "takeWhile is_s ?d"
  let ?e = "dropWhile is_s ?d"
  let ?tail = "takeWhile (\<lambda>r. r \<noteq> 10) ?e"
  let ?rest = "dropWhile (\<lambda>r. r \<noteq> 10) ?e"
  from l have ne: "?tok \<noteq> []" "?sep \<noteq> []" and res: "res = [?tok @ ?sep @ ?tail, ?tok, ?tail]"
    by (auto simp: match_here_def Let_def split: if_splits)
  have s: "s = ?tok @ ?sep @ ?tail @ ?rest" by simp
  have 1: "\<forall>r\<in>set ?tok. \<not> is_s r" by (auto dest: set_takeWhileD)
  have 2: "\<forall>r\<in>set ?sep. is_s r" by (auto dest: set_takeWhileD)
  have 3: "?tail @ ?rest = [] \<or> \<not> is_s (hd (?tail @ ?rest))"
    using hd_dropWhile[of is_s ?d] by (auto simp del: dropWhile_eq_Nil_conv)
  have 4: "\<forall>r\<in>set ?tail. r \<noteq> 10" by (auto dest: set_takeWhileD)
  have 5: "?rest = [] \<or> hd ?rest = 10"
    using hd_dropWhile[of "\<lambda>r. r \<noteq> 10" ?e] by (auto simp del: dropWhile_eq_Nil_conv)
  show ?R
  proof (intro exI conjI)
    show "s = ?tok @ ?sep @ ?tail @ ?rest" by (rule s)
    show "res = [?tok @ ?sep @ ?tail, ?tok, ?tail]" by (rule res)
  qed (rule ne 1 2 3 4 5)+
next
  assume r: ?R
  from r obtain tok sep tail rest where
    s: "s = tok @ sep @ tail @ rest" and res: "res = [tok @ sep @ tail, tok, tail]"
    and t: "tok \<noteq> []" "\<forall>r\<in>set tok. \<not> is_s r"
    and p: "sep \<noteq> []" "\<forall>r\<in>set sep. is_s r"
    and e: "tail @ rest = [] \<or> \<not> is_s (hd (tail @ rest))"
    and l: "\<forall>r\<in>set tail. r \<noteq> 10" "rest = [] \<or> hd rest = 10"
    by (elim exE conjE) 
  from p have "is_s (hd (sep @ tail @ rest))" by (cases sep) simp_all
  then have "sep @ tail @ rest = [] \<or> \<not> \<not> is_s (hd (sep @ tail @ rest))" by simp
  from takeWhile_unique[OF s t(2) this]
  have a: "takeWhile (\<lambda>r. \<not> is_s r) s = tok" "dropWhile (\<lambda>r. \<not> is_s r) s = sep @ tail @ rest"
    by simp_all
  from takeWhile_unique[OF refl p(2) e]
  have b: "takeWhile is_s (sep @ tail @ rest) = sep" "dropWhile is_s (sep @ tail @ rest) = tail @ rest"
    by simp_all
  from l(2) have "rest = [] \<or> \<not> hd rest \<noteq> 10" by simp
  from takeWhile_unique[OF refl l(1) this]
  have c: "takeWhile (\<lambda>r. r \<noteq> 10) (tail @ rest) = tail" by simp
  have "match_here s = (if tok = [] \<or> sep = [] then None else Some [tok @ sep @ tail, tok, tail])"
    by (simp only: match_here_def Let_def a b c)
  with t p res show ?L by simp
qed

section \<open>The codec\<close>

text \<open>
  \<^verbatim>\<open>AppendToOutgoingContext\<close> stores exactly what \<open>encode\<close> returns, and \<^verbatim>\<open>parseMeta\<close> on a
  context with at least one header value is \<open>decode\<close> of the first value followed by the
  lookup and the validator.
\<close>

lemma AppendToOutgoingContext_encode:
  "AppendToOutgoingContext U ctx m c =
     (case encode U m c of
        Inl err \<Rightarrow> Inl err
      | Inr h \<Rightarrow>
          Inr (NewOutgoingContext ctx
                 (MD_Set U (case FromOutgoingContext ctx of None \<Rightarrow> Map.empty | Some md \<Rightarrow> md)
                    MetadataName h)))"
  by (simp add: AppendToOutgoingContext_def encode_def Let_def split: option.splits)

lemma parseMeta_decode:
  "incomingMD ctx = Some md \<Longrightarrow> md MetadataName = Some (h # hs) \<Longrightarrow>
     parseMeta U a ctx = dispatch a ctx (decode U h)"
  by (simp add: parseMeta_def decode_def dispatch_def FromIncomingContext_def malformed_def
      unsupported_def split: option.splits prod.splits)

lemma FindStringSubmatch_encoded:
  assumes "validateMethod U s = None"
  shows "FindStringSubmatch (s @ 32 # c) =
           Some [s @ (32 # takeWhile is_s c) @ takeWhile (\<lambda>r. r \<noteq> 10) (dropWhile is_s c), s,
                 takeWhile (\<lambda>r. r \<noteq> 10) (dropWhile is_s c)]"
proof -
  from assms have ne: "s \<noteq> []" by (simp add: validateMethod_None_iff)
  from assms have nb: "\<forall>r\<in>set s. \<not> is_s r" using valid_no_blank by blast
  have "is_s 32" by (simp add: is_s_def)
  from match_here_token[OF ne nb this] show ?thesis
    unfolding FindStringSubmatch_def by (rule search_match)
qed

text \<open>
  Claim C1, as the code has it.  For a scheme name \<open>s\<close> that the rule accepts, \<open>encode\<close>
  yields \<open>s\<close>, one space, and the credential \<open>c\<close>; decoding that value gives back
  \<open>(s, c)\<close> exactly when \<open>c\<close> does not begin with a blank (the separator run would swallow
  it) and contains no newline (group 2 stops at the end of the line).  Blanks
  elsewhere in \<open>c\<close> are kept.
\<close>

theorem codec_roundtrip:
  assumes "scheme_name_rule U s"
  shows "encode U s c = Inr (s @ lit '' '' @ c) \<and>
         ((decode U (s @ lit '' '' @ c) = Inr (s, c))
            = ((c = [] \<or> \<not> is_s (hd c)) \<and> 10 \<notin> set c))"
proof -
  from assms have v: "validateMethod U s = None" by (simp add: validateMethod_rule)
  then have low: "strings_ToLower U s = s" by (simp add: validateMethod_None_iff)
  have sp: "lit '' '' = [32]" by (simp add: lit_def)
  have e: "encode U s c = Inr (s @ lit '' '' @ c)"
    by (simp add: encode_def v low)
  have d: "decode U (s @ lit '' '' @ c) =
             Inr (s, takeWhile (\<lambda>r. r \<noteq> 10) (dropWhile is_s c))"
    by (simp add: decode_def sp FindStringSubmatch_encoded[OF v] v)
  show ?thesis using e d tail_eq_iff[of c] by simp
qed

theorem codec_roundtrip_witness:
  "scheme_name_rule ascii_tables (lit ''hello'') \<and>
   encode ascii_tables (lit ''hello'') (lit ''big world'') = Inr (lit ''hello big world'') \<and>
   decode ascii_tables (lit ''hello big world'') = Inr (lit ''hello'', lit ''big world'')"
proof -
  have r: "scheme_name_rule ascii_tables (lit ''hello'')"
    by (simp add: scheme_name_rule_def lit_def whitespace_def strings_ToLower_def
        unicode_ToLower_def IsLetter_def IsDigit_def)
  have c: "(lit ''big world'' = [] \<or> \<not> is_s (hd (lit ''big world''))) \<and> 10 \<notin> set (lit ''big world'')"
    by (simp add: lit_def is_s_def)
  have j: "lit ''hello'' @ lit '' '' @ lit ''big world'' = lit ''hello big world''"
    by (simp add: lit_def)
  from codec_roundtrip[OF r, of "lit ''big world''"] c r show ?thesis
    unfolding j by simp
qed

text \<open>
  Claim C1 as stated fails: the credential \<open>a\<close>, newline, \<open>b\<close> comes back as \<open>a\<close>, and the
  credential \<open>x\<close> with a leading space comes back without the space.
\<close>

theorem codec_roundtrip_counterexample:
  "scheme_name_rule ascii_tables (lit ''foo'') \<and>
   encode ascii_tables (lit ''foo'') (lit ''a'' @ [10] @ lit ''b'')
     = Inr (lit ''foo a'' @ [10] @ lit ''b'') \<and>
   decode ascii_tables (lit ''foo a'' @ [10] @ lit ''b'') = Inr (lit ''foo'', lit ''a'') \<and>
   encode ascii_tables (lit ''foo'') (lit '' x'') = Inr (lit ''foo  x'') \<and>
   decode ascii_tables (lit ''foo  x'') = Inr (lit ''foo'', lit ''x'')"
  by (simp add: scheme_name_rule_def lit_def whitespace_def strings_ToLower_def
      unicode_ToLower_def IsLetter_def IsDigit_def encode_def decode_def validateMethod_def
      FindStringSubmatch_def match_here_def is_s_def Let_def)

section \<open>When a header is malformed\<close>

text \<open>
  The executable predicates agree with the pattern read as a regular expression:
  \<open>anchored_match\<close> is a non-empty run of non-blanks followed by a non-empty run of blanks
  at the very start of the text, and the search fails exactly when no line of the text
  starts that way.
\<close>

lemma dropWhile_hd: "dropWhile P xs \<noteq> [] \<Longrightarrow> \<not> P (hd (dropWhile P xs))"
  by (simp add: hd_dropWhile)

lemma match_here_anchored: "(match_here s \<noteq> None) = anchored_match s"
proof (cases s)
  case Nil
  then show ?thesis by (simp add: match_here_def anchored_match_def)
next
  case (Cons r rs)
  show ?thesis
  proof (cases "is_s r")
    case True
    with Cons show ?thesis by (simp add: match_here_def anchored_match_def)
  next
    case False
    have "takeWhile is_s (dropWhile (\<lambda>r. \<not> is_s r) rs) = [] \<longleftrightarrow> dropWhile (\<lambda>r. \<not> is_s r) rs = []"
    proof (cases "dropWhile (\<lambda>r. \<not> is_s r) rs")
      case Nil
      then show ?thesis by (simp del: dropWhile_eq_Nil_conv)
    next
      case (Cons b bs)
      with dropWhile_hd[of "\<lambda>r. \<not> is_s r" rs] have "is_s b" by simp
      with Cons show ?thesis by (simp del: dropWhile_eq_Nil_conv)
    qed
    with Cons False show ?thesis
      by (simp add: match_here_def anchored_match_def Let_def del: takeWhile_eq_Nil_iff dropWhile_eq_Nil_conv)
  qed
qed

lemma anchored_match_iff:
  "anchored_match s \<longleftrightarrow>
     (\<exists>tok sep rest. s = tok @ sep @ rest \<and> tok \<noteq> [] \<and> (\<forall>r\<in>set tok. \<not> is_s r)
         \<and> sep \<noteq> [] \<and> (\<forall>r\<in>set sep. is_s r))"
proof
  assume a: "anchored_match s"
  then obtain r rs where s: "s = r # rs" and r: "\<not> is_s r"
    and d: "dropWhile (\<lambda>r. \<not> is_s r) rs \<noteq> []"
    by (auto simp: anchored_match_def split: list.splits)
  let ?tok = "r # takeWhile (\<lambda>r. \<not> is_s r) rs"
  let ?d = "dropWhile (\<lambda>r. \<not> is_s r) rs"
  have "s = ?tok @ [hd ?d] @ tl ?d" using s d by simp
  moreover have "\<forall>x\<in>set ?tok. \<not> is_s x" using r by (auto dest: set_takeWhileD)
  moreover have "is_s (hd ?d)" using dropWhile_hd[OF d] by simp
  ultimately show "\<exists>tok sep rest. s = tok @ sep @ rest \<and> tok \<noteq> [] \<and> (\<forall>r\<in>set tok. \<not> is_s r)
         \<and> sep \<noteq> [] \<and> (\<forall>r\<in>set sep. is_s r)"
    by (intro exI[of _ ?tok] exI[of _ "[hd ?d]"] exI[of _ "tl ?d"]) simp
next
  assume "\<exists>tok sep rest. s = tok @ sep @ rest \<and> tok \<noteq> [] \<and> (\<forall>r\<in>set tok. \<not> is_s r)
         \<and> sep \<noteq> [] \<and> (\<forall>r\<in>set sep. is_s r)"
  then obtain tok sep rest where s: "s = tok @ sep @ rest" and t: "tok \<noteq> []"
    and tn: "\<forall>r\<in>set tok. \<not> is_s r" and sn: "sep \<noteq> []" and sb: "\<forall>r\<in>set sep. is_s r"
    by blast
  from t obtain r ts where tok: "tok = r # ts" by (cases tok) auto
  from sn obtain b bs where sep: "sep = b # bs" by (cases sep) auto
  have b: "is_s b" using sb sep by simp
  have "dropWhile (\<lambda>r. \<not> is_s r) (ts @ b # bs @ rest) = b # bs @ rest"
    using tn b tok by (simp add: dropWhile_append2)
  then show "anchored_match s"
    using s tok sep tn by (simp add: anchored_match_def del: dropWhile_eq_Nil_conv)
qed

lemma search_None_iff:
  "(search bol s = None) =
     (\<not> list_ex anchored_match (if bol then line_starts s else tl (line_starts s)))"
proof (induction s arbitrary: bol)
  case Nil
  show ?case by (simp add: anchored_match_def)
next
  case (Cons r rs)
  show ?case
  proof (cases bol)
    case True
    then show ?thesis
      using Cons[of "r = 10"] match_here_anchored[of "r # rs"]
      by (cases "match_here (r # rs)") auto
  next
    case False
    then show ?thesis using Cons[of "r = 10"] by simp
  qed
qed

lemma FindStringSubmatch_None_iff: "(FindStringSubmatch s = None) = (\<not> multiline_match s)"
  by (simp add: FindStringSubmatch_def multiline_match_def search_None_iff)

lemma decode_malformed: "(decode U h = Inl malformed) = (FindStringSubmatch h = None)"
  by (auto simp: decode_def malformed_def split: option.splits
      dest!: validateMethod_Some_wraps)

lemma line_starts_hd: "line_starts s = s # tl (line_starts s)"
  by (cases s) auto

lemma line_starts_subset: "l \<in> set (line_starts s) \<Longrightarrow> set l \<subseteq> set s"
proof (induction s arbitrary: l)
  case Nil
  then show ?case by simp
next
  case (Cons r rs)
  have "set (tl (line_starts rs)) \<subseteq> set (line_starts rs)"
    by (metis line_starts_hd set_subset_Cons)
  with Cons show ?case by (auto split: if_splits)
qed

lemma anchored_match_blank: "anchored_match l \<Longrightarrow> \<exists>r\<in>set l. is_s r"
proof -
  assume "anchored_match l"
  then obtain tok sep rest where l: "l = tok @ sep @ rest" and "sep \<noteq> []"
    and sb: "\<forall>r\<in>set sep. is_s r"
    unfolding anchored_match_iff by blast
  then have "hd sep \<in> set sep" by simp
  with sb l show ?thesis by auto
qed

lemma anchored_multiline: "anchored_match s \<Longrightarrow> multiline_match s"
  unfolding multiline_match_def list_ex_iff by (subst line_starts_hd) simp

lemma no_blank_no_match: "list_all (\<lambda>r. \<not> is_s r) s \<Longrightarrow> \<not> multiline_match s"
  unfolding multiline_match_def list_ex_iff list_all_iff
  using line_starts_subset anchored_match_blank by blast

text \<open>
  Claim C4, as the code has it.  Decoding fails with the malformed-header error exactly
  for the texts that the pattern \<^verbatim>\<open>(?m)^(\S+)\s+(.*)\<close> does not match, where \<^verbatim>\<open>^\<close> holds at
  the start of the text and after every newline: no line of the text starts with a
  non-blank token followed by a blank.  So no text matching the pattern anchored at the
  start of the text is malformed, every text without a blank (the empty text too) is
  malformed, for a text without a newline the two readings of the pattern coincide, and \<^verbatim>\<open>parseMeta\<close> then stores that error as the outcome.
\<close>

lemma line_starts_one_line: "10 \<notin> set s \<Longrightarrow> line_starts s = [s]"
  by (induction s) auto

lemma multiline_one_line: "10 \<notin> set s \<Longrightarrow> multiline_match s = anchored_match s"
  by (simp add: multiline_match_def line_starts_one_line)

theorem malformed_iff_no_line_matches:
  "((decode U h = Inl malformed) = (\<not> multiline_match h)) \<and>
   (10 \<notin> set h0 \<longrightarrow> (decode U h0 = Inl malformed) = (\<not> anchored_match h0)) \<and>
   (anchored_match h1 \<longrightarrow> decode U h1 \<noteq> Inl malformed) \<and>
   (list_all (\<lambda>r. \<not> is_s r) h2 \<longrightarrow> decode U h2 = Inl malformed) \<and>
   (incomingMD ctx = Some md \<and> md MetadataName = Some (h3 # hs) \<and> \<not> multiline_match h3
      \<longrightarrow> parseMeta U a ctx = VErr malformed)"
proof -
  have 1: "(decode U h = Inl malformed) = (\<not> multiline_match h)" for h
    by (simp add: decode_malformed FindStringSubmatch_None_iff)
  have 2: "anchored_match h1 \<longrightarrow> decode U h1 \<noteq> Inl malformed"
    using anchored_multiline by (simp add: 1)
  have 3: "list_all (\<lambda>r. \<not> is_s r) h2 \<longrightarrow> decode U h2 = Inl malformed"
    using no_blank_no_match by (simp add: 1)
  have 4: "incomingMD ctx = Some md \<and> md MetadataName = Some (h3 # hs) \<and> \<not> multiline_match h3
      \<longrightarrow> parseMeta U a ctx = VErr malformed"
    using 1[of h3] by (auto simp: parseMeta_decode dispatch_def)
  have 5: "10 \<notin> set h0 \<longrightarrow> (decode U h0 = Inl malformed) = (\<not> anchored_match h0)"
    by (simp add: 1 multiline_one_line)
  from 1 2 3 4 5 show ?thesis by blast
qed

theorem malformed_iff_no_line_matches_witness:
  "\<not> multiline_match (lit '' x'') \<and> decode ascii_tables (lit '' x'') = Inl malformed \<and>
   10 \<notin> set (lit ''foo'') \<and> \<not> anchored_match (lit ''foo'') \<and>
   decode ascii_tables (lit ''foo'') = Inl malformed \<and>
   anchored_match (lit ''hello world'') \<and> decode ascii_tables (lit ''hello world'') \<noteq> Inl malformed \<and>
   list_all (\<lambda>r. \<not> is_s r) (lit ''coucou'') \<and> decode ascii_tables (lit ''coucou'') = Inl malformed \<and>
   incomingMD (header_ctx [lit ''coucou'', lit ''foo bar'']) = Some [MetadataName \<mapsto> [lit ''coucou'', lit ''foo bar'']] \<and>
   \<not> multiline_match (lit ''coucou'') \<and>
   parseMeta ascii_tables test_auth (header_ctx [lit ''coucou'', lit ''foo bar'']) = VErr malformed"
proof -
  have a: "\<not> multiline_match (lit '' x'')"
    by (simp add: multiline_match_def anchored_match_def lit_def is_s_def)
  have b: "anchored_match (lit ''hello world'')"
    by (simp add: anchored_match_def lit_def is_s_def)
  have c: "list_all (\<lambda>r. \<not> is_s r) (lit ''coucou'')"
    by (simp add: lit_def is_s_def)
  have d: "incomingMD (header_ctx [lit ''coucou'', lit ''foo bar''])
             = Some [MetadataName \<mapsto> [lit ''coucou'', lit ''foo bar'']]"
    by (simp add: header_ctx_def NewIncomingContext_def)
  have e: "\<not> multiline_match (lit ''coucou'')"
    by (simp add: multiline_match_def anchored_match_def lit_def is_s_def)
  have f: "10 \<notin> set (lit ''foo'')" by (simp add: lit_def)
  have g: "\<not> anchored_match (lit ''foo'')"
    by (simp add: anchored_match_def lit_def is_s_def)
  from f g malformed_iff_no_line_matches[of ascii_tables "lit '' x''" "lit ''foo''" "lit ''hello world''" "lit ''coucou''"
      "header_ctx [lit ''coucou'', lit ''foo bar'']" "[MetadataName \<mapsto> [lit ''coucou'', lit ''foo bar'']]"
      "lit ''coucou''" "[lit ''foo bar'']" test_auth] a b c d e
  show ?thesis by simp
qed

text \<open>
  Claim C4 as stated fails: the header value newline, \<open>foo bar\<close> does not match the pattern
  anchored at the start of the text, and yet it decodes to the scheme \<open>foo\<close> and the
  credential \<open>bar\<close>, and the call is authorized.
\<close>

theorem malformed_anchored_counterexample:
  "\<not> anchored_match (10 # lit ''foo bar'') \<and>
   decode ascii_tables (10 # lit ''foo bar'') = Inr (lit ''foo'', lit ''bar'') \<and>
   parseMeta ascii_tables test_auth (header_ctx [10 # lit ''foo bar''])
     = VData (Predeclared ''string'') 0"
  by (simp add: anchored_match_def lit_def is_s_def decode_def FindStringSubmatch_def
      match_here_def Let_def validateMethod_def strings_ToLower_def unicode_ToLower_def
      IsLetter_def IsDigit_def parseMeta_def header_ctx_def NewIncomingContext_def
      FromIncomingContext_def test_auth_def fooFunc_def MetadataName_def)

section \<open>Where a bad scheme name is rejected\<close>

lemma validateMethod_rejects:
  "\<not> scheme_name_rule U s \<Longrightarrow> \<exists>e. validateMethod U s = Some e \<and> errors_Is e ErrInvalidMethod"
  using validateMethod_rule[of U s] validateMethod_Some_wraps[of U s]
  by (cases "validateMethod U s") auto

text \<open>
  Claim C3, as the code has it.  A name that fails the scheme-name rule is rejected by
  \<^verbatim>\<open>validateMethod\<close> with an error wrapping \<^verbatim>\<open>ErrInvalidMethod\<close>;
  \<^verbatim>\<open>AppendToOutgoingContext\<close> and the option made by \<^verbatim>\<open>WithMethodFunction\<close> (with a
  function that is not nil) return that very error, and \<^verbatim>\<open>parseMeta\<close> stores it as the
  outcome when the name is the scheme token it decoded.  \<^verbatim>\<open>New\<close> reports it as
  \<^verbatim>\<open>ErrInvalidOptionValue\<close>: the cause is kept as text only, and the error matches no
  other sentinel.
\<close>

theorem invalid_name_rejected_everywhere:
  assumes "\<not> scheme_name_rule U s"
  shows "\<exists>e. validateMethod U s = Some e \<and> errors_Is e ErrInvalidMethod \<and>
           AppendToOutgoingContext U ctx s c = Inl e \<and>
           WithMethodFunction U s (Some fn) a = (Some e, a) \<and>
           New (WithMethodFunction U s (Some fn) # opts)
             = Inl (Errorf_w ErrInvalidOptionValue (lit '' : '' @ Error e)) \<and>
           kinds (Errorf_w ErrInvalidOptionValue (lit '' : '' @ Error e)) = [ErrInvalidOptionValue] \<and>
           (incomingMD sctx = Some md \<and> md MetadataName = Some (h # hs) \<and>
              FindStringSubmatch h = Some res \<and> res ! 1 = s
              \<longrightarrow> parseMeta U a sctx = VErr e)"
proof -
  from validateMethod_rejects[OF assms] obtain e where
    e: "validateMethod U s = Some e" and k: "errors_Is e ErrInvalidMethod" by blast
  have 1: "AppendToOutgoingContext U ctx s c = Inl e"
    by (simp add: AppendToOutgoingContext_def e)
  have 2: "WithMethodFunction U s (Some fn) b = (Some e, b)" for b
    by (simp add: WithMethodFunction_def e)
  have 3: "New (WithMethodFunction U s (Some fn) # opts)
             = Inl (Errorf_w ErrInvalidOptionValue (lit '' : '' @ Error e))"
    by (simp add: New_def 2)
  have 4: "kinds (Errorf_w ErrInvalidOptionValue (lit '' : '' @ Error e)) = [ErrInvalidOptionValue]"
    by (simp add: kinds_def sentinels_def)
  have 5: "incomingMD sctx = Some md \<and> md MetadataName = Some (h # hs) \<and>
              FindStringSubmatch h = Some res \<and> res ! 1 = s
              \<longrightarrow> parseMeta U a sctx = VErr e"
    by (auto simp: parseMeta_def FromIncomingContext_def e)
  from e k 1 2[of a] 3 4 5 show ?thesis by blast
qed

theorem invalid_name_rejected_everywhere_witness:
  "\<not> scheme_name_rule ascii_tables (lit ''heLLo'') \<and>
   validateMethod ascii_tables (lit ''heLLo'')
     = Some (Errorf_w ErrInvalidMethod (lit '': must be lowercase'')) \<and>
   incomingMD (header_ctx [lit ''heLLo monde'']) = Some [MetadataName \<mapsto> [lit ''heLLo monde'']] \<and>
   FindStringSubmatch (lit ''heLLo monde'') = Some [lit ''heLLo monde'', lit ''heLLo'', lit ''monde''] \<and>
   parseMeta ascii_tables test_auth (header_ctx [lit ''heLLo monde''])
     = VErr (Errorf_w ErrInvalidMethod (lit '': must be lowercase''))"
proof -
  have r: "\<not> scheme_name_rule ascii_tables (lit ''heLLo'')"
    by (simp add: scheme_name_rule_def lit_def strings_ToLower_def unicode_ToLower_def)
  have v: "validateMethod ascii_tables (lit ''heLLo'')
     = Some (Errorf_w ErrInvalidMethod (lit '': must be lowercase''))"
    by (simp add: validateMethod_def lit_def strings_ToLower_def unicode_ToLower_def)
  have i: "incomingMD (header_ctx [lit ''heLLo monde'']) = Some [MetadataName \<mapsto> [lit ''heLLo monde'']]"
    by (simp add: header_ctx_def NewIncomingContext_def)
  have f: "FindStringSubmatch (lit ''heLLo monde'') = Some [lit ''heLLo monde'', lit ''heLLo'', lit ''monde'']"
    by (simp add: FindStringSubmatch_def match_here_def lit_def is_s_def Let_def)
  from invalid_name_rejected_everywhere[OF r, of TODO "[]" fooFunc test_auth "[]"
      "header_ctx [lit ''heLLo monde'']" "[MetadataName \<mapsto> [lit ''heLLo monde'']]"
      "lit ''heLLo monde''" "[]" "[lit ''heLLo monde'', lit ''heLLo'', lit ''monde'']"]
    r v i f
  show ?thesis by auto
qed

text \<open>
  Claim C3 as stated fails: for the name \<open>Bearer\<close> the outgoing encoding fails with
  \<^verbatim>\<open>ErrInvalidMethod\<close> while \<^verbatim>\<open>New\<close> fails with an error that is not
  \<^verbatim>\<open>ErrInvalidMethod\<close>; and the empty name, sent as the header value \<open>" token"\<close>, is
  reported as a malformed header.
\<close>

theorem registration_error_kind_counterexample:
  "\<not> scheme_name_rule ascii_tables (lit ''Bearer'') \<and>
   AppendToOutgoingContext ascii_tables TODO (lit ''Bearer'') (lit ''42'')
     = Inl (Errorf_w ErrInvalidMethod (lit '': must be lowercase'')) \<and>
   New [WithMethodFunction ascii_tables (lit ''Bearer'') (Some fooFunc)]
     = Inl (Errorf_w ErrInvalidOptionValue
              (lit '' : invalid authorization method: must be lowercase'')) \<and>
   \<not> errors_Is (Errorf_w ErrInvalidOptionValue
              (lit '' : invalid authorization method: must be lowercase'')) ErrInvalidMethod \<and>
   \<not> scheme_name_rule ascii_tables [] \<and>
   parseMeta ascii_tables test_auth (header_ctx [lit '' token'']) = VErr malformed \<and>
   \<not> errors_Is malformed ErrInvalidMethod"
  by (simp add: scheme_name_rule_def lit_def strings_ToLower_def unicode_ToLower_def
      AppendToOutgoingContext_def validateMethod_def New_def WithMethodFunction_def
      parseMeta_def header_ctx_def NewIncomingContext_def FromIncomingContext_def
      MetadataName_def FindStringSubmatch_def match_here_def is_s_def Let_def malformed_def)

section \<open>The error a handler sees\<close>

lemma handler_get_eq:
  "handler_get U a ctx d st
     = GetFromContext (WithValue ctx contextValueKey (parseMeta U a ctx)) d st"
  by (simp add: handler_get_def UnaryInterceptor_def)

lemma GetFromContext_VErr:
  "dest_Kind d = KPtr \<Longrightarrow> Value ctx contextValueKey = VErr err \<Longrightarrow>
     GetFromContext ctx d st =
       Returns (Some (if errors_Is err ErrMissing \<or> errors_Is err ErrInvalid then err
                      else Errorf_w ErrInvalid (lit '': '' @ Error err)), st)"
  by (simp add: GetFromContext_def)

lemma handler_get_VErr:
  "dest_Kind d = KPtr \<Longrightarrow> parseMeta U a ctx = VErr err \<Longrightarrow>
     handler_get U a ctx d st =
       Returns (Some (if errors_Is err ErrMissing \<or> errors_Is err ErrInvalid then err
                      else Errorf_w ErrInvalid (lit '': '' @ Error err)), st)"
  by (simp add: handler_get_eq GetFromContext_VErr WithValue_def)

lemma parseMeta_missing:
  "incomingMD ctx = None \<or>
     (\<exists>md. incomingMD ctx = Some md \<and> (md MetadataName = None \<or> md MetadataName = Some []))
   \<Longrightarrow> parseMeta U a ctx = VErr ErrMissing"
  by (auto simp: parseMeta_def FromIncomingContext_def)

lemma kinds_wrapped_invalid [simp]: "kinds (Errorf_w ErrInvalid t) = [ErrInvalid]"
  by (simp add: kinds_def sentinels_def)

lemma kinds_missing [simp]: "kinds ErrMissing = [ErrMissing]"
  by (simp add: kinds_def sentinels_def)

text \<open>
  Claim C2, as the code has it.  With a pointer destination, a call without the header
  surfaces as \<^verbatim>\<open>ErrMissing\<close>.  A malformed header, an unsupported scheme and a validator
  error (one that does not itself match \<^verbatim>\<open>ErrMissing\<close> or \<^verbatim>\<open>ErrInvalid\<close>) all surface as an
  error that matches \<^verbatim>\<open>ErrInvalid\<close> and no other sentinel of the package; the
  validator's own error is not wrapped, so it cannot be matched either.  The three are
  told apart by their text only.
\<close>

theorem failure_kinds:
  assumes "dest_Kind d = KPtr"
  shows
  "(incomingMD ctx1 = None \<or>
      (\<exists>md. incomingMD ctx1 = Some md \<and> (md MetadataName = None \<or> md MetadataName = Some []))
     \<longrightarrow> handler_get U a ctx1 d st = Returns (Some ErrMissing, st) \<and> kinds ErrMissing = [ErrMissing])
   \<and>
   (incomingMD ctx2 = Some md2 \<and> md2 MetadataName = Some (h2 # hs2) \<and> \<not> multiline_match h2
     \<longrightarrow> (\<exists>e. handler_get U a ctx2 d st = Returns (Some e, st) \<and> kinds e = [ErrInvalid]))
   \<and>
   (incomingMD ctx3 = Some md3 \<and> md3 MetadataName = Some (h3 # hs3) \<and> decode U h3 = Inr (m3, c3)
      \<and> (methods a m3 = None \<or> methods a m3 = Some None)
     \<longrightarrow> (\<exists>e. handler_get U a ctx3 d st = Returns (Some e, st) \<and> kinds e = [ErrInvalid]))
   \<and>
   (incomingMD ctx4 = Some md4 \<and> md4 MetadataName = Some (h4 # hs4) \<and> decode U h4 = Inr (m4, c4)
      \<and> methods a m4 = Some (Some fn) \<and> fn ctx4 c4 = (v, Some err)
      \<and> \<not> errors_Is err ErrMissing \<and> \<not> errors_Is err ErrInvalid
     \<longrightarrow> (\<exists>e. handler_get U a ctx4 d st = Returns (Some e, st) \<and> kinds e = [ErrInvalid]
               \<and> \<not> errors_Is e err))"
proof -
  note g = handler_get_VErr[OF assms]
  have 1: "incomingMD ctx1 = None \<or>
      (\<exists>md. incomingMD ctx1 = Some md \<and> (md MetadataName = None \<or> md MetadataName = Some []))
     \<longrightarrow> handler_get U a ctx1 d st = Returns (Some ErrMissing, st) \<and> kinds ErrMissing = [ErrMissing]"
    using g[OF parseMeta_missing, of ctx1 U a st] by auto
  have 2: "incomingMD ctx2 = Some md2 \<and> md2 MetadataName = Some (h2 # hs2) \<and> \<not> multiline_match h2
     \<longrightarrow> (\<exists>e. handler_get U a ctx2 d st = Returns (Some e, st) \<and> kinds e = [ErrInvalid])"
  proof (intro impI, elim conjE)
    assume "incomingMD ctx2 = Some md2" "md2 MetadataName = Some (h2 # hs2)" "\<not> multiline_match h2"
    then have "parseMeta U a ctx2 = VErr malformed"
      using FindStringSubmatch_None_iff[of h2]
      by (simp add: parseMeta_decode dispatch_def decode_def)
    from g[OF this] show "\<exists>e. handler_get U a ctx2 d st = Returns (Some e, st) \<and> kinds e = [ErrInvalid]"
      by (simp add: malformed_def)
  qed
  have 3: "incomingMD ctx3 = Some md3 \<and> md3 MetadataName = Some (h3 # hs3) \<and> decode U h3 = Inr (m3, c3)
      \<and> (methods a m3 = None \<or> methods a m3 = Some None)
     \<longrightarrow> (\<exists>e. handler_get U a ctx3 d st = Returns (Some e, st) \<and> kinds e = [ErrInvalid])"
  proof (intro impI, elim conjE)
    assume "incomingMD ctx3 = Some md3" "md3 MetadataName = Some (h3 # hs3)"
      "decode U h3 = Inr (m3, c3)" "methods a m3 = None \<or> methods a m3 = Some None"
    then have "parseMeta U a ctx3 = VErr (unsupported m3)"
      by (auto simp: parseMeta_decode dispatch_def)
    from g[OF this] show "\<exists>e. handler_get U a ctx3 d st = Returns (Some e, st) \<and> kinds e = [ErrInvalid]"
      by (simp add: unsupported_def)
  qed
  have 4: "incomingMD ctx4 = Some md4 \<and> md4 MetadataName = Some (h4 # hs4) \<and> decode U h4 = Inr (m4, c4)
      \<and> methods a m4 = Some (Some fn) \<and> fn ctx4 c4 = (v, Some err)
      \<and> \<not> errors_Is err ErrMissing \<and> \<not> errors_Is err ErrInvalid
     \<longrightarrow> (\<exists>e. handler_get U a ctx4 d st = Returns (Some e, st) \<and> kinds e = [ErrInvalid]
               \<and> \<not> errors_Is e err)"
  proof (intro impI, elim conjE)
    assume a: "incomingMD ctx4 = Some md4" "md4 MetadataName = Some (h4 # hs4)"
      "decode U h4 = Inr (m4, c4)" "methods a m4 = Some (Some fn)" "fn ctx4 c4 = (v, Some err)"
      and n: "\<not> errors_Is err ErrMissing" "\<not> errors_Is err ErrInvalid"
    from a have "parseMeta U a ctx4 = VErr err"
      by (auto simp: parseMeta_decode dispatch_def)
    from g[OF this, of st] n
    have r: "handler_get U a ctx4 d st
               = Returns (Some (Errorf_w ErrInvalid (lit '': '' @ Error err)), st)"
      by simp
    have "\<not> errors_Is (Errorf_w ErrInvalid (lit '': '' @ Error err)) err"
      using n by (cases err) auto
    with r show "\<exists>e. handler_get U a ctx4 d st = Returns (Some e, st) \<and> kinds e = [ErrInvalid]
               \<and> \<not> errors_Is e err"
      by simp
  qed
  from 1 2 3 4 show ?thesis by blast
qed

text \<open>The definitions that evaluating a concrete call unfolds.\<close>

lemmas eval_defs = lit_def strings_ToLower_def unicode_ToLower_def IsLetter_def IsDigit_def
  validateMethod_def FindStringSubmatch_def match_here_def is_s_def Let_def
  parseMeta_def header_ctx_def NewIncomingContext_def FromIncomingContext_def
  MetadataName_def test_auth_def fooFunc_def nilFunc_def decode_def TODO_def

theorem failure_kinds_witness:
  "dest_Kind (Dest (PtrTo (Predeclared ''string'')) (Some 0)) = KPtr \<and>
   incomingMD TODO = None \<and>
   handler_get ascii_tables test_auth TODO (Dest (PtrTo (Predeclared ''string'')) (Some 0)) (\<lambda>p. VNil)
     = Returns (Some ErrMissing, \<lambda>p. VNil) \<and>
   incomingMD (header_ctx [lit ''coucou'']) = Some [MetadataName \<mapsto> [lit ''coucou'']] \<and>
   \<not> multiline_match (lit ''coucou'') \<and>
   (\<exists>e. handler_get ascii_tables test_auth (header_ctx [lit ''coucou''])
           (Dest (PtrTo (Predeclared ''string'')) (Some 0)) (\<lambda>p. VNil) = Returns (Some e, \<lambda>p. VNil)
        \<and> kinds e = [ErrInvalid]) \<and>
   incomingMD (header_ctx [lit ''ghost token'']) = Some [MetadataName \<mapsto> [lit ''ghost token'']] \<and>
   decode ascii_tables (lit ''ghost token'') = Inr (lit ''ghost'', lit ''token'') \<and>
   methods test_auth (lit ''ghost'') = None \<and>
   (\<exists>e. handler_get ascii_tables test_auth (header_ctx [lit ''ghost token''])
           (Dest (PtrTo (Predeclared ''string'')) (Some 0)) (\<lambda>p. VNil) = Returns (Some e, \<lambda>p. VNil)
        \<and> kinds e = [ErrInvalid]) \<and>
   incomingMD (header_ctx [lit ''foo baz'']) = Some [MetadataName \<mapsto> [lit ''foo baz'']] \<and>
   decode ascii_tables (lit ''foo baz'') = Inr (lit ''foo'', lit ''baz'') \<and>
   methods test_auth (lit ''foo'') = Some (Some fooFunc) \<and>
   fooFunc (header_ctx [lit ''foo baz'']) (lit ''baz'') = (VNil, Some (ErrorsNew (lit ''boo''))) \<and>
   \<not> errors_Is (ErrorsNew (lit ''boo'')) ErrMissing \<and>
   \<not> errors_Is (ErrorsNew (lit ''boo'')) ErrInvalid \<and>
   (\<exists>e. handler_get ascii_tables test_auth (header_ctx [lit ''foo baz''])
           (Dest (PtrTo (Predeclared ''string'')) (Some 0)) (\<lambda>p. VNil) = Returns (Some e, \<lambda>p. VNil)
        \<and> kinds e = [ErrInvalid] \<and> \<not> errors_Is e (ErrorsNew (lit ''boo'')))"
proof -
  let ?d = "Dest (PtrTo (Predeclared ''string'')) (Some 0)"
  have k: "dest_Kind ?d = KPtr" by simp
  have m1: "incomingMD TODO = None" by (simp add: TODO_def)
  have i2: "incomingMD (header_ctx [lit ''coucou'']) = Some [MetadataName \<mapsto> [lit ''coucou'']]"
    by (simp add: header_ctx_def NewIncomingContext_def)
  have n2: "\<not> multiline_match (lit ''coucou'')"
    by (simp add: multiline_match_def anchored_match_def lit_def is_s_def)
  have i3: "incomingMD (header_ctx [lit ''ghost token'']) = Some [MetadataName \<mapsto> [lit ''ghost token'']]"
    by (simp add: header_ctx_def NewIncomingContext_def)
  have d3: "decode ascii_tables (lit ''ghost token'') = Inr (lit ''ghost'', lit ''token'')"
    by (simp add: eval_defs)
  have l3: "methods test_auth (lit ''ghost'') = None"
    by (simp add: test_auth_def lit_def)
  have i4: "incomingMD (header_ctx [lit ''foo baz'']) = Some [MetadataName \<mapsto> [lit ''foo baz'']]"
    by (simp add: header_ctx_def NewIncomingContext_def)
  have d4: "decode ascii_tables (lit ''foo baz'') = Inr (lit ''foo'', lit ''baz'')"
    by (simp add: eval_defs)
  have l4: "methods test_auth (lit ''foo'') = Some (Some fooFunc)"
    by (simp add: test_auth_def lit_def)
  have f4: "fooFunc (header_ctx [lit ''foo baz'']) (lit ''baz'') = (VNil, Some (ErrorsNew (lit ''boo'')))"
    by (simp add: fooFunc_def lit_def)
  have e4: "\<not> errors_Is (ErrorsNew (lit ''boo'')) ErrMissing" "\<not> errors_Is (ErrorsNew (lit ''boo'')) ErrInvalid"
    by simp_all
  from failure_kinds[OF k, of TODO ascii_tables test_auth "\<lambda>p. VNil"
      "header_ctx [lit ''coucou'']" "[MetadataName \<mapsto> [lit ''coucou'']]" "lit ''coucou''" "[]"
      "header_ctx [lit ''ghost token'']" "[MetadataName \<mapsto> [lit ''ghost token'']]" "lit ''ghost token''" "[]"
      "lit ''ghost''" "lit ''token''"
      "header_ctx [lit ''foo baz'']" "[MetadataName \<mapsto> [lit ''foo baz'']]" "lit ''foo baz''" "[]"
      "lit ''foo''" "lit ''baz''" fooFunc VNil "ErrorsNew (lit ''boo'')"]
    k m1 i2 n2 i3 d3 l3 i4 d4 l4 f4 e4
  show ?thesis by simp
qed

text \<open>
  Claim C2 as stated fails: with the instance of the tests, the headers \<open>coucou\<close>
  (malformed), \<open>ghost token\<close> (unsupported scheme) and \<open>foo baz\<close> (the validator fails with
  \<open>boo\<close>) give three errors that match exactly the same sentinels.
\<close>

theorem failure_kinds_counterexample:
  "handler_get ascii_tables test_auth (header_ctx [lit ''coucou''])
     (Dest (PtrTo (Predeclared ''string'')) (Some 0)) (\<lambda>p. VNil)
     = Returns (Some malformed, \<lambda>p. VNil) \<and>
   handler_get ascii_tables test_auth (header_ctx [lit ''ghost token''])
     (Dest (PtrTo (Predeclared ''string'')) (Some 0)) (\<lambda>p. VNil)
     = Returns (Some (unsupported (lit ''ghost'')), \<lambda>p. VNil) \<and>
   handler_get ascii_tables test_auth (header_ctx [lit ''foo baz''])
     (Dest (PtrTo (Predeclared ''string'')) (Some 0)) (\<lambda>p. VNil)
     = Returns (Some (Errorf_w ErrInvalid (lit '': boo'')), \<lambda>p. VNil) \<and>
   map (errors_Is malformed) sentinels = map (errors_Is (unsupported (lit ''ghost''))) sentinels \<and>
   map (errors_Is malformed) sentinels
     = map (errors_Is (Errorf_w ErrInvalid (lit '': boo''))) sentinels"
proof -
  have 1: "parseMeta ascii_tables test_auth (header_ctx [lit ''coucou'']) = VErr malformed"
    by (simp add: eval_defs malformed_def)
  have 2: "parseMeta ascii_tables test_auth (header_ctx [lit ''ghost token''])
             = VErr (unsupported (lit ''ghost''))"
    by (simp add: eval_defs unsupported_def)
  have 3: "parseMeta ascii_tables test_auth (header_ctx [lit ''foo baz''])
             = VErr (ErrorsNew (lit ''boo''))"
    by (simp add: eval_defs)
  have k: "dest_Kind (Dest (PtrTo (Predeclared ''string'')) (Some 0)) = KPtr" by simp
  show ?thesis
    using handler_get_VErr[OF k 1] handler_get_VErr[OF k 2] handler_get_VErr[OF k 3]
    by (simp add: malformed_def unsupported_def sentinels_def lit_def)
qed

section \<open>The interceptors\<close>

text \<open>
  Claim C5.  Whatever the outcome of the validation, failures included, the unary
  interceptor returns what the handler returns on the request and a context that
  carries the outcome under the package's key, and the stream interceptor returns what
  the handler returns on a stream whose context carries the outcome; neither has a path
  that returns without calling the handler.
\<close>

theorem interceptors_always_call_handler:
  "(\<exists>ctx'. UnaryInterceptor U a ctx req info handler = handler ctx' req \<and>
           Value ctx' contextValueKey = parseMeta U a ctx \<and>
           incomingMD ctx' = incomingMD ctx) \<and>
   (\<exists>ns. StreamInterceptor U a srv stream sinfo shandler = shandler srv ns \<and>
          Value (stream_Context ns) contextValueKey = parseMeta U a (stream_Context stream) \<and>
          incomingMD (stream_Context ns) = incomingMD (stream_Context stream))"
proof
  let ?c = "WithValue ctx contextValueKey (parseMeta U a ctx)"
  have "UnaryInterceptor U a ctx req info handler = handler ?c req"
    by (simp add: UnaryInterceptor_def)
  moreover have "Value ?c contextValueKey = parseMeta U a ctx" "incomingMD ?c = incomingMD ctx"
    by (simp_all add: WithValue_def)
  ultimately show "\<exists>ctx'. UnaryInterceptor U a ctx req info handler = handler ctx' req \<and>
           Value ctx' contextValueKey = parseMeta U a ctx \<and> incomingMD ctx' = incomingMD ctx"
    by blast
next
  let ?s = "stream_Context stream"
  let ?ns = "Wrap stream (WithValue ?s contextValueKey (parseMeta U a ?s))"
  have "StreamInterceptor U a srv stream sinfo shandler = shandler srv ?ns"
    by (simp add: StreamInterceptor_def)
  moreover have "Value (stream_Context ?ns) contextValueKey = parseMeta U a ?s"
    "incomingMD (stream_Context ?ns) = incomingMD ?s"
    by (simp_all add: WithValue_def)
  ultimately show "\<exists>ns. StreamInterceptor U a srv stream sinfo shandler = shandler srv ns \<and>
          Value (stream_Context ns) contextValueKey = parseMeta U a (stream_Context stream) \<and>
          incomingMD (stream_Context ns) = incomingMD (stream_Context stream)"
    by blast
qed

section \<open>Reading the header\<close>

text \<open>
  Claim C6.  Without incoming metadata, without the key, or with no value under the
  key, the outcome is \<^verbatim>\<open>ErrMissing\<close>.  With one value or more, the outcome depends on the
  first value only: two calls whose first value is the same, and on whose contexts the
  registered validators answer alike, have the same outcome, whatever values follow
  the first (none, in particular).  The value decoded is the first one, and the validator
  is run on the credential decoded from it.
\<close>

theorem first_header_value_only:
  "(incomingMD ctx0 = None \<or>
      (\<exists>md. incomingMD ctx0 = Some md \<and> (md MetadataName = None \<or> md MetadataName = Some []))
     \<longrightarrow> parseMeta U a ctx0 = VErr ErrMissing) \<and>
   (incomingMD ctx = Some md \<and> md MetadataName = Some (h # hs)
     \<longrightarrow> parseMeta U a ctx = dispatch a ctx (decode U h)) \<and>
   (incomingMD ctx = Some md \<and> md MetadataName = Some (h # hs) \<and>
    incomingMD ctx' = Some md' \<and> md' MetadataName = Some (h # hs') \<and>
    (\<forall>m fn c. methods a m = Some (Some fn) \<longrightarrow> fn ctx c = fn ctx' c)
     \<longrightarrow> parseMeta U a ctx = parseMeta U a ctx')"
proof (intro conjI impI)
  assume "incomingMD ctx0 = None \<or>
      (\<exists>md. incomingMD ctx0 = Some md \<and> (md MetadataName = None \<or> md MetadataName = Some []))"
  then show "parseMeta U a ctx0 = VErr ErrMissing" by (rule parseMeta_missing)
next
  assume "incomingMD ctx = Some md \<and> md MetadataName = Some (h # hs)"
  then show "parseMeta U a ctx = dispatch a ctx (decode U h)"
    by (simp add: parseMeta_decode)
next
  assume a: "incomingMD ctx = Some md \<and> md MetadataName = Some (h # hs) \<and>
    incomingMD ctx' = Some md' \<and> md' MetadataName = Some (h # hs') \<and>
    (\<forall>m fn c. methods a m = Some (Some fn) \<longrightarrow> fn ctx c = fn ctx' c)"
  then have 1: "parseMeta U a ctx = dispatch a ctx (decode U h)"
    and 2: "parseMeta U a ctx' = dispatch a ctx' (decode U h)"
    by (simp_all add: parseMeta_decode)
  from a have v: "methods a m = Some (Some fn) \<Longrightarrow> fn ctx c = fn ctx' c" for m fn c
    by blast
  have "dispatch a ctx x = dispatch a ctx' x" for x
    by (auto simp: dispatch_def v split: sum.splits option.splits)
  with 1 2 show "parseMeta U a ctx = parseMeta U a ctx'" by simp
qed

theorem first_header_value_only_witness:
  "incomingMD TODO = None \<and> parseMeta ascii_tables test_auth TODO = VErr ErrMissing \<and>
   incomingMD (header_ctx [lit ''foo bar'', lit ''ghost token''])
     = Some [MetadataName \<mapsto> [lit ''foo bar'', lit ''ghost token'']] \<and>
   incomingMD (header_ctx [lit ''foo bar'']) = Some [MetadataName \<mapsto> [lit ''foo bar'']] \<and>
   parseMeta ascii_tables test_auth (header_ctx [lit ''foo bar'', lit ''ghost token''])
     = parseMeta ascii_tables test_auth (header_ctx [lit ''foo bar'']) \<and>
   parseMeta ascii_tables test_auth (header_ctx [lit ''foo bar'', lit ''ghost token''])
     = VData (Predeclared ''string'') 0"
proof -
  have 0: "incomingMD TODO = None" by (simp add: TODO_def)
  have 1: "incomingMD (header_ctx [lit ''foo bar'', lit ''ghost token''])
     = Some [MetadataName \<mapsto> [lit ''foo bar'', lit ''ghost token'']]"
    by (simp add: header_ctx_def NewIncomingContext_def)
  have 2: "incomingMD (header_ctx [lit ''foo bar'']) = Some [MetadataName \<mapsto> [lit ''foo bar'']]"
    by (simp add: header_ctx_def NewIncomingContext_def)
  have 3: "\<forall>m fn c. methods test_auth m = Some (Some fn) \<longrightarrow>
       fn (header_ctx [lit ''foo bar'', lit ''ghost token'']) c = fn (header_ctx [lit ''foo bar'']) c"
    by (auto simp: test_auth_def fooFunc_def nilFunc_def split: if_splits)
  have 4: "dispatch test_auth (header_ctx [lit ''foo bar'', lit ''ghost token''])
             (decode ascii_tables (lit ''foo bar'')) = VData (Predeclared ''string'') 0"
    by (simp add: dispatch_def eval_defs)
  from first_header_value_only[of TODO ascii_tables test_auth
      "header_ctx [lit ''foo bar'', lit ''ghost token'']"
      "[MetadataName \<mapsto> [lit ''foo bar'', lit ''ghost token'']]" "lit ''foo bar''" "[lit ''ghost token'']"
      "header_ctx [lit ''foo bar'']" "[MetadataName \<mapsto> [lit ''foo bar'']]" "[]"]
    0 1 2 3
  show ?thesis by (auto simp: 4)
qed

section \<open>The outgoing header\<close>

lemma MetadataName_lower: "strings_ToLower U MetadataName = MetadataName"
  by (simp add: MetadataName_def lit_def strings_ToLower_def unicode_ToLower_def)

lemma AppendToOutgoingContext_valid:
  assumes "scheme_name_rule U m"
  shows "\<exists>ctx' md. AppendToOutgoingContext U ctx m c = Inr ctx' \<and> outgoingMD ctx' = Some md \<and>
            md MetadataName = Some [m @ lit '' '' @ c]"
proof -
  from assms have v: "validateMethod U m = None" by (simp add: validateMethod_rule)
  then have low: "strings_ToLower U m = m" by (simp add: validateMethod_None_iff)
  show ?thesis
    by (simp add: AppendToOutgoingContext_def v low Let_def NewOutgoingContext_def MD_Set_def
        MetadataName_lower)
qed

text \<open>
  Claim C8.  For a valid scheme name, \<^verbatim>\<open>AppendToOutgoingContext\<close> returns a context whose
  outgoing metadata has exactly one value under the authorization key, the credential
  just encoded, whatever the context held before; so a second call, with the same or
  another valid scheme, replaces the value of the first.
\<close>

theorem outgoing_single_value:
  assumes "scheme_name_rule U m"
  shows "\<exists>ctx' md. AppendToOutgoingContext U ctx m c = Inr ctx' \<and> outgoingMD ctx' = Some md \<and>
            md MetadataName = Some [m @ lit '' '' @ c] \<and>
            (scheme_name_rule U m2 \<longrightarrow>
               (\<exists>ctx'' md''. AppendToOutgoingContext U ctx' m2 c2 = Inr ctx'' \<and>
                   outgoingMD ctx'' = Some md'' \<and> md'' MetadataName = Some [m2 @ lit '' '' @ c2]))"
  using AppendToOutgoingContext_valid[OF assms, of ctx c] AppendToOutgoingContext_valid[of U m2 _ c2]
  by metis

theorem outgoing_single_value_witness:
  "scheme_name_rule ascii_tables (lit ''hello'') \<and> scheme_name_rule ascii_tables (lit ''method2'') \<and>
   (\<exists>ctx' md. AppendToOutgoingContext ascii_tables TODO (lit ''hello'') (lit ''world'') = Inr ctx' \<and>
       outgoingMD ctx' = Some md \<and> md MetadataName = Some [lit ''hello world''] \<and>
       (\<exists>ctx'' md''. AppendToOutgoingContext ascii_tables ctx' (lit ''method2'') (lit ''value2'') = Inr ctx'' \<and>
           outgoingMD ctx'' = Some md'' \<and> md'' MetadataName = Some [lit ''method2 value2'']))"
proof -
  have r: "scheme_name_rule ascii_tables (lit ''hello'')"
    by (simp add: scheme_name_rule_def lit_def whitespace_def strings_ToLower_def
        unicode_ToLower_def IsLetter_def IsDigit_def)
  have r2: "scheme_name_rule ascii_tables (lit ''method2'')"
    by (simp add: scheme_name_rule_def lit_def whitespace_def strings_ToLower_def
        unicode_ToLower_def IsLetter_def IsDigit_def)
  have j: "lit ''hello'' @ lit '' '' @ lit ''world'' = lit ''hello world''"
     "lit ''method2'' @ lit '' '' @ lit ''value2'' = lit ''method2 value2''"
    by (simp_all add: lit_def)
  from outgoing_single_value[OF r, of TODO "lit ''world''" "lit ''method2''" "lit ''value2''"] r r2
  show ?thesis unfolding j by simp
qed

section \<open>Typed retrieval\<close>

text \<open>
  Claim C9, as the code has it.  When the validator of the decoded scheme returns nil
  and no error, the outcome is nil, and \<^verbatim>\<open>GetFromContext\<close> with a pointer destination
  (nil or not) returns \<^verbatim>\<open>ErrUnchecked\<close>, as it does on a context that no interceptor has
  touched.
\<close>

theorem nil_value_is_unchecked:
  assumes "incomingMD ctx = Some md" and "md MetadataName = Some (h # hs)"
    and "decode U h = Inr (m, c)" and "methods a m = Some (Some fn)"
    and "fn ctx c = (VNil, None)" and "dest_Kind d = KPtr"
  shows "parseMeta U a ctx = VNil \<and>
         handler_get U a ctx d st = Returns (Some ErrUnchecked, st) \<and>
         (Value ctx0 contextValueKey = VNil \<longrightarrow> GetFromContext ctx0 d st = handler_get U a ctx d st)"
proof -
  from assms have p: "parseMeta U a ctx = VNil"
    by (simp add: parseMeta_decode dispatch_def)
  then have "handler_get U a ctx d st = Returns (Some ErrUnchecked, st)"
    using assms(6) by (simp add: handler_get_eq GetFromContext_def WithValue_def)
  moreover have "Value ctx0 contextValueKey = VNil \<longrightarrow>
      GetFromContext ctx0 d st = Returns (Some ErrUnchecked, st)"
    using assms(6) by (simp add: GetFromContext_def)
  ultimately show ?thesis using p by simp
qed

theorem nil_value_is_unchecked_witness:
  "incomingMD (header_ctx [lit ''nil x'']) = Some [MetadataName \<mapsto> [lit ''nil x'']] \<and>
   decode ascii_tables (lit ''nil x'') = Inr (lit ''nil'', lit ''x'') \<and>
   methods test_auth (lit ''nil'') = Some (Some nilFunc) \<and>
   nilFunc (header_ctx [lit ''nil x'']) (lit ''x'') = (VNil, None) \<and>
   dest_Kind (Dest (PtrTo (Predeclared ''string'')) (Some 0)) = KPtr \<and>
   Value TODO contextValueKey = VNil \<and>
   parseMeta ascii_tables test_auth (header_ctx [lit ''nil x'']) = VNil \<and>
   handler_get ascii_tables test_auth (header_ctx [lit ''nil x''])
     (Dest (PtrTo (Predeclared ''string'')) (Some 0)) (\<lambda>p. VNil) = Returns (Some ErrUnchecked, \<lambda>p. VNil) \<and>
   GetFromContext TODO (Dest (PtrTo (Predeclared ''string'')) (Some 0)) (\<lambda>p. VNil)
     = Returns (Some ErrUnchecked, \<lambda>p. VNil)"
proof -
  have 1: "incomingMD (header_ctx [lit ''nil x'']) = Some [MetadataName \<mapsto> [lit ''nil x'']]"
    by (simp add: header_ctx_def NewIncomingContext_def)
  have 2: "[MetadataName \<mapsto> [lit ''nil x'']] MetadataName = Some (lit ''nil x'' # [])" by simp
  have 3: "decode ascii_tables (lit ''nil x'') = Inr (lit ''nil'', lit ''x'')"
    by (simp add: eval_defs)
  have 4: "methods test_auth (lit ''nil'') = Some (Some nilFunc)"
    by (simp add: test_auth_def lit_def)
  have 5: "nilFunc (header_ctx [lit ''nil x'']) (lit ''x'') = (VNil, None)"
    by (simp add: nilFunc_def)
  have 6: "dest_Kind (Dest (PtrTo (Predeclared ''string'')) (Some 0)) = KPtr" by simp
  have 7: "Value TODO contextValueKey = VNil" by (simp add: TODO_def)
  from nil_value_is_unchecked[OF 1 2 3 4 5 6, of "\<lambda>p. VNil" TODO] 1 3 4 5 6 7
  show ?thesis by simp
qed

text \<open>
  Claim C9 as stated fails for a destination that is not a pointer: the check of the
  destination comes first, and the call returns \<^verbatim>\<open>ErrType\<close>.
\<close>

theorem nil_value_non_pointer_counterexample:
  "methods test_auth (lit ''nil'') = Some (Some nilFunc) \<and>
   nilFunc (header_ctx [lit ''nil x'']) (lit ''x'') = (VNil, None) \<and>
   parseMeta ascii_tables test_auth (header_ctx [lit ''nil x'']) = VNil \<and>
   handler_get ascii_tables test_auth (header_ctx [lit ''nil x''])
     (Dest (Predeclared ''int'') None) (\<lambda>p. VNil)
     = Returns (Some (Errorf_w ErrType (lit '': dest must be a pointer'')), \<lambda>p. VNil) \<and>
   \<not> errors_Is (Errorf_w ErrType (lit '': dest must be a pointer'')) ErrUnchecked"
  by (simp add: handler_get_eq GetFromContext_def eval_defs)

text \<open>
  Claim C10.  With a success value stored and a destination that is a nil pointer of
  some pointer type, \<^verbatim>\<open>GetFromContext\<close> panics: \<^verbatim>\<open>Elem()\<close> of a nil pointer is the zero
  \<^verbatim>\<open>Value\<close>, and asking its type panics.
\<close>

theorem typed_nil_destination_panics:
  assumes "Value ctx contextValueKey = VData t x" and "Kind dt = KPtr"
  shows "GetFromContext ctx (Dest dt None) st = Panics"
  using assms by (simp add: GetFromContext_def)

theorem typed_nil_destination_panics_witness:
  "Value (WithValue TODO contextValueKey (VData (Predeclared ''string'') 0)) contextValueKey
     = VData (Predeclared ''string'') 0 \<and>
   Kind (PtrTo (Predeclared ''string'')) = KPtr \<and>
   GetFromContext (WithValue TODO contextValueKey (VData (Predeclared ''string'') 0))
     (Dest (PtrTo (Predeclared ''string'')) None) (\<lambda>p. VNil) = Panics"
proof -
  have 1: "Value (WithValue TODO contextValueKey (VData (Predeclared ''string'') 0)) contextValueKey
     = VData (Predeclared ''string'') 0"
    by (simp add: WithValue_def)
  have 2: "Kind (PtrTo (Predeclared ''string'')) = KPtr" by simp
  from typed_nil_destination_panics[OF 1 2, of "\<lambda>p. VNil"] 1 2 show ?thesis by simp
qed

text \<open>
  When the destination's type is not assignable to the type of the stored value, the
  call returns \<^verbatim>\<open>ErrType\<close> with both type names and leaves the store alone.
\<close>

lemma GetFromContext_wrong_type:
  assumes "Value ctx contextValueKey = VData from_t x" and "Kind t = KPtr"
    and "\<not> AssignableTo (elem_type t) from_t"
  shows "GetFromContext ctx (Dest t (Some p)) st =
           Returns (Some (Errorf_w ErrType
                      (lit '': expecting a '' @ type_String (elem_type t)
                         @ lit '' but got value is a '' @ type_String from_t)), st)"
  using assms by (simp add: GetFromContext_def)

text \<open>
  Claim C7 does not hold of the code.  The guard asks whether the destination's type is
  assignable to the value's type, the reverse of what \<^verbatim>\<open>Set\<close> needs.  A stored
  receive-only channel and a destination variable of the bidirectional channel type
  pass the guard, although the value is not assignable to the variable, and \<^verbatim>\<open>Set\<close>
  panics.
\<close>

theorem receive_only_channel_panics:
  "\<not> AssignableTo (ChanOf RecvDir (Predeclared ''int'')) (ChanOf BothDir (Predeclared ''int'')) \<and>
   GetFromContext
     (WithValue TODO contextValueKey (VData (ChanOf RecvDir (Predeclared ''int'')) 0))
     (Dest (PtrTo (ChanOf BothDir (Predeclared ''int''))) (Some 0)) (\<lambda>p. VNil) = Panics"
  by (simp add: GetFromContext_def WithValue_def AssignableTo_def directlyAssignable_def
      implements_def)

end
